theory Spec2Isabelle
  imports Complex_Main "HOL-Library.AList"
begin

section \<open>Python values and conversions used by the program\<close>

text \<open>
  Exceptions of the Python runtime that the modelled code can raise and does not catch.
\<close>

datatype py_error = KeyError | ValueError | TypeError

text \<open>
  \<open>str(n)\<close> and \<open>int(s)\<close> for decimal text. CPython refuses to convert between
  \<open>int\<close> and \<open>str\<close> when more than 4300 digits are involved (ValueError).
  A string is a list of 8-bit characters, read as the code points U+0000 to U+00FF.
\<close>

definition int_max_str_digits :: nat where
  "int_max_str_digits = 4300"

definition digit_char :: "nat \<Rightarrow> char" where
  "digit_char d = char_of (48 + d)"

function str_nat :: "nat \<Rightarrow> string" where
  "str_nat n = (if n < 10 then [digit_char n] else str_nat (n div 10) @ [digit_char (n mod 10)])"
  by pat_completeness auto
termination
  by (relation "measure (\<lambda>n. n)") auto

declare str_nat.simps [simp del]

definition py_str :: "int \<Rightarrow> py_error + string" where
  "py_str i =
     (let ds = str_nat (nat \<bar>i\<bar>)
      in if length ds > int_max_str_digits then Inl ValueError
         else Inr (if i < 0 then CHR ''-'' # ds else ds))"

text \<open>
  \<open>int(s)\<close> on a \<open>str\<close> first passes the text through
  \<open>_PyUnicode_TransformDecimalAndSpaceToASCII\<close>: a text of ASCII characters only is
  taken as it is; in any other text a character below 127 is kept, a character for which
  \<open>Py_UNICODE_ISSPACE\<close> holds (U+0085 and U+00A0 in this range) becomes a blank, and at
  the first other character (none of this range is a decimal digit) the text is cut
  with a question mark. \<open>PyLong_FromString\<close> then skips the white space of
  \<open>Py_ISSPACE\<close> (U+0009 to U+000D and the blank) on both sides.
\<close>

definition is_space :: "char \<Rightarrow> bool" where
  "is_space c = (let n = (of_char c :: nat) in (9 \<le> n \<and> n \<le> 13) \<or> n = 32)"

definition is_ascii :: "string \<Rightarrow> bool" where
  "is_ascii s = list_all (\<lambda>c. (of_char c :: nat) < 128) s"

fun transform_space :: "string \<Rightarrow> string" where
  "transform_space [] = []"
| "transform_space (c # cs) =
     (let n = (of_char c :: nat)
      in if n < 127 then c # transform_space cs
         else if n = 133 \<or> n = 160 then CHR '' '' # transform_space cs
         else [CHR ''?''])"

definition is_digit :: "char \<Rightarrow> bool" where
  "is_digit c = (let n = (of_char c :: nat) in 48 \<le> n \<and> n \<le> 57)"

definition digit_val :: "char \<Rightarrow> nat" where
  "digit_val c = of_char c - 48"

definition strip :: "string \<Rightarrow> string" where
  "strip s = rev (dropWhile is_space (rev (dropWhile is_space s)))"

text \<open>
  The digits of an integer literal: at least one digit, single underscores allowed
  between digits only. The flag records whether the previous character was a digit.
\<close>

fun parse_digits :: "nat \<Rightarrow> bool \<Rightarrow> string \<Rightarrow> nat option" where
  "parse_digits acc prev_digit [] = (if prev_digit then Some acc else None)"
| "parse_digits acc prev_digit (c # cs) =
     (if is_digit c then parse_digits (10 * acc + digit_val c) True cs
      else if c = CHR ''_'' \<and> prev_digit then parse_digits acc False cs
      else None)"

definition py_int :: "string \<Rightarrow> py_error + int" where
  "py_int s =
     (let t = strip (if is_ascii s then s else transform_space s);
          (neg, body) = (case t of
                           c # cs \<Rightarrow> if c = CHR ''-'' then (True, cs)
                                     else if c = CHR ''+'' then (False, cs)
                                     else (False, t)
                         | [] \<Rightarrow> (False, t))
      in if length (filter is_digit body) > int_max_str_digits then Inl ValueError
         else (case parse_digits 0 False body of
                 None \<Rightarrow> Inl ValueError
               | Some n \<Rightarrow> Inr (if neg then - int n else int n)))"

text \<open>\<open>int(x)\<close> truncates a float towards zero.\<close>

definition py_trunc :: "real \<Rightarrow> int" where
  "py_trunc x = (if 0 \<le> x then \<lfloor>x\<rfloor> else \<lceil>x\<rceil>)"


section \<open>The ephemeral store: \<open>MockRedis\<close> (app/utils/cache.py)\<close>

text \<open>
  The two dictionaries of the class, in insertion order, as association lists.
  \<open>AList.update\<close> overwrites in place or appends, \<open>AList.delete\<close> removes the key,
  as assignment and \<open>del\<close> do on a Python dict. Time stamps are the seconds of
  \<open>datetime.now().timestamp()\<close>, taken as real numbers; every operation that reads the
  clock receives the reading as the argument \<open>now\<close>.
  Every operation returns its result (or the exception it raised) and the store it leaves.
\<close>

record MockRedis =
  data :: "(string \<times> string) list"
  expires :: "(string \<times> real) list"

definition init_store :: MockRedis where
  "init_store = \<lparr>data = [], expires = []\<rparr>"

definition has_key :: "string \<Rightarrow> (string \<times> 'v) list \<Rightarrow> bool" where
  "has_key key d = (map_of d key \<noteq> None)"

definition get :: "MockRedis \<Rightarrow> string \<Rightarrow> real \<Rightarrow> (py_error + string option) \<times> MockRedis" where
  "get s key now =
     (case map_of (expires s) key of
        Some t \<Rightarrow>
          if t < now then
            (if has_key key (data s)
             then (Inr None, s\<lparr>data := AList.delete key (data s),
                                expires := AList.delete key (expires s)\<rparr>)
             else (Inl KeyError, s))
          else (Inr (map_of (data s) key), s)
      | None \<Rightarrow> (Inr (map_of (data s) key), s))"

definition expire :: "MockRedis \<Rightarrow> string \<Rightarrow> int \<Rightarrow> real \<Rightarrow> bool \<times> MockRedis" where
  "expire s key time now =
     (if has_key key (data s)
      then (True, s\<lparr>expires := AList.update key (now + real_of_int time) (expires s)\<rparr>)
      else (False, s))"

definition set_key :: "MockRedis \<Rightarrow> string \<Rightarrow> string \<Rightarrow> int option \<Rightarrow> real \<Rightarrow> bool \<times> MockRedis" where
  "set_key s key v ex now =
     (let s1 = s\<lparr>data := AList.update key v (data s)\<rparr>
      in case ex of
           None \<Rightarrow> (True, s1)
         | Some e \<Rightarrow> if e \<noteq> 0 then (True, snd (expire s1 key e now)) else (True, s1))"

definition setex :: "MockRedis \<Rightarrow> string \<Rightarrow> int \<Rightarrow> string \<Rightarrow> real \<Rightarrow> bool \<times> MockRedis" where
  "setex s key time v now =
     (let s1 = s\<lparr>data := AList.update key v (data s)\<rparr>
      in (True, snd (expire s1 key time now)))"

definition delete :: "MockRedis \<Rightarrow> string \<Rightarrow> bool \<times> MockRedis" where
  "delete s key =
     (if has_key key (data s)
      then (True, s\<lparr>data := AList.delete key (data s),
                     expires := (if has_key key (expires s)
                                 then AList.delete key (expires s) else expires s)\<rparr>)
      else (False, s))"

definition incr :: "MockRedis \<Rightarrow> string \<Rightarrow> (py_error + int) \<times> MockRedis" where
  "incr s key =
     (case (case map_of (data s) key of None \<Rightarrow> Inr 0 | Some v \<Rightarrow> py_int v) of
        Inl e \<Rightarrow> (Inl e, s)
      | Inr current \<Rightarrow>
          (case py_str (current + 1) of
             Inl e \<Rightarrow> (Inl e, s)
           | Inr v \<Rightarrow> (Inr (current + 1), s\<lparr>data := AList.update key v (data s)\<rparr>)))"

definition ttl :: "MockRedis \<Rightarrow> string \<Rightarrow> real \<Rightarrow> int" where
  "ttl s key now =
     (if \<not> has_key key (data s) then - 2
      else case map_of (expires s) key of
             None \<Rightarrow> - 1
           | Some t \<Rightarrow> max 1 (py_trunc (t - now)))"

definition flushall :: "MockRedis \<Rightarrow> bool \<times> MockRedis" where
  "flushall s = (True, s\<lparr>data := [], expires := []\<rparr>)"

text \<open>
  \<open>_clean_expired\<close>: the keys whose time stamp is before \<open>now\<close> are collected first,
  then deleted one by one from both dictionaries; \<open>del\<close> of a key that a dictionary
  does not hold raises KeyError and leaves the deletions made so far.
\<close>

fun del_each :: "string list \<Rightarrow> MockRedis \<Rightarrow> (py_error + unit) \<times> MockRedis" where
  "del_each [] s = (Inr (), s)"
| "del_each (key # ks) s =
     (if \<not> has_key key (data s) then (Inl KeyError, s)
      else if \<not> has_key key (expires s)
           then (Inl KeyError, s\<lparr>data := AList.delete key (data s)\<rparr>)
      else del_each ks (s\<lparr>data := AList.delete key (data s),
                           expires := AList.delete key (expires s)\<rparr>))"

definition clean_expired :: "MockRedis \<Rightarrow> real \<Rightarrow> (py_error + unit) \<times> MockRedis" where
  "clean_expired s now =
     del_each (map fst (filter (\<lambda>(k, t). t < now) (expires s))) s"


text \<open>
  The value the specification gives for \<open>ttl\<close>, written from its words: the seconds
  remaining for a key that exists with a time to live, \<open>-1\<close> for a key that exists
  without one, \<open>-2\<close> for a key that is absent, a key whose time to live has lapsed
  counting as absent.
\<close>

definition ttl_spec :: "MockRedis \<Rightarrow> string \<Rightarrow> real \<Rightarrow> int" where
  "ttl_spec s key now =
     (if \<not> has_key key (data s) then - 2
      else case map_of (expires s) key of
             None \<Rightarrow> - 1
           | Some t \<Rightarrow> if t < now then - 2 else py_trunc (t - now))"


text \<open>
  The keys of \<open>_expires\<close> are keys of \<open>_data\<close>, and an association list that stands
  for a dictionary holds each key once. The constructor establishes this and every
  method keeps it (lemmas \<open>store_inv_*\<close> below).
\<close>

definition store_inv :: "MockRedis \<Rightarrow> bool" where
  "store_inv s =
     (distinct (map fst (data s)) \<and> distinct (map fst (expires s)) \<and>
      set (map fst (expires s)) \<subseteq> set (map fst (data s)))"


section \<open>Configuration (app/core/config.py)\<close>

record Settings =
  SECRET_KEY :: string
  ALGORITHM :: string
  ACCESS_TOKEN_EXPIRE_MINUTES :: int
  REFRESH_TOKEN_EXPIRE_DAYS :: int
  MAX_LOGIN_ATTEMPTS :: int
  LOCKOUT_TIME :: int
  CACHE_TTL :: int

text \<open>The values of the class \<open>Settings\<close> when the environment overrides none of them.\<close>

definition settings :: Settings where
  "settings =
     \<lparr>SECRET_KEY = ''your-secret-key'', ALGORITHM = ''HS256'',
      ACCESS_TOKEN_EXPIRE_MINUTES = 30, REFRESH_TOKEN_EXPIRE_DAYS = 7,
      MAX_LOGIN_ATTEMPTS = 5, LOCKOUT_TIME = 15, CACHE_TTL = 300\<rparr>"


section \<open>Persistent entities (app/models)\<close>

text \<open>
  The tables are lists of rows; \<open>query(...).filter(...).first()\<close> is the first row that
  satisfies the filter. The column \<open>id\<close> of a user is \<open>uid\<close>, that of a notification
  \<open>nid\<close>; \<open>n_created_at\<close> is the notification's \<open>created_at\<close>. Points in time are seconds
  since the epoch. \<open>db.commit()\<close> and the log calls have no counterpart: the updated
  tables are returned.
\<close>

datatype UserRole = USER | ADMIN

record User =
  uid :: int
  username :: string
  email :: string
  hashed_password :: string
  role :: UserRole
  is_active :: bool
  email_verified :: bool
  created_at :: real
  last_login :: "real option"

record Notification =
  nid :: int
  user_id :: int
  message :: string
  is_read :: bool
  n_created_at :: real

record Db =
  users :: "User list"
  notifications :: "Notification list"

definition user_by_username :: "Db \<Rightarrow> string \<Rightarrow> User option" where
  "user_by_username db name = find (\<lambda>u. username u = name) (users db)"



text \<open>Assignment to attributes of the row that a query returned, then commit.\<close>

definition update_user :: "Db \<Rightarrow> int \<Rightarrow> (User \<Rightarrow> User) \<Rightarrow> Db" where
  "update_user db i f = db\<lparr>users := map (\<lambda>u. if uid u = i then f u else u) (users db)\<rparr>"


section \<open>Libraries the program calls\<close>

text \<open>
  passlib's \<open>CryptContext\<close>: the program only calls \<open>hash\<close> and \<open>verify\<close>. Both are taken
  as they come, as parameters; \<open>hash\<close> draws a salt, which is its first argument here.
\<close>

record CryptContext =
  ctx_hash :: "string \<Rightarrow> string \<Rightarrow> string"
  ctx_verify :: "string \<Rightarrow> string \<Rightarrow> bool"

text \<open>
  Python values that pass through \<open>json.dumps\<close> and \<open>json.loads\<close>, and truth of a value
  in a condition. The two functions of the \<open>json\<close> module are parameters;
  \<open>loads\<close> answers \<open>None\<close> where \<open>json.loads\<close> raises \<open>JSONDecodeError\<close>.
\<close>

datatype pyval =
    PNone
  | PBool bool
  | PInt int
  | PFloat real
  | PStr string
  | PDateTime real
  | PList "pyval list"
  | PDict "(string \<times> pyval) list"

fun truthy :: "pyval \<Rightarrow> bool" where
  "truthy PNone = False"
| "truthy (PBool b) = b"
| "truthy (PInt i) = (i \<noteq> 0)"
| "truthy (PFloat x) = (x \<noteq> 0)"
| "truthy (PStr s) = (s \<noteq> [])"
| "truthy (PDateTime t) = True"
| "truthy (PList xs) = (xs \<noteq> [])"
| "truthy (PDict kvs) = (kvs \<noteq> [])"

record Json =
  dumps :: "pyval \<Rightarrow> string"
  loads :: "string \<Rightarrow> pyval option"


text \<open>
  python-jose. A bearer string is either a compact JWS, given by the algorithm of its
  header, the key its signature was made with and its claim set, or some other text.
  Signatures are ideal: verification succeeds exactly for the signing key. The claim
  set has the three names this program writes and reads. \<open>jwt.encode\<close> stores \<open>exp\<close>
  as whole seconds; \<open>jwt.decode\<close> checks the algorithm and the signature, then rejects a
  claim set whose \<open>exp\<close> is before the current whole second.
  \<open>ExpiredSignatureError\<close> and \<open>JWTClaimsError\<close> are subclasses of \<open>JWTError\<close>.
\<close>

record Claims =
  claim_sub :: "string option"
  claim_exp :: "int option"
  claim_refresh :: "bool option"

datatype Token = JWS string string Claims | NotAToken string

datatype jwt_error = JWTError | ExpiredSignatureError | JWTClaimsError

definition jwt_encode :: "Claims \<Rightarrow> string \<Rightarrow> string \<Rightarrow> Token" where
  "jwt_encode claims key algorithm = JWS algorithm key claims"

definition jwt_decode :: "Token \<Rightarrow> string \<Rightarrow> string list \<Rightarrow> real \<Rightarrow> jwt_error + Claims" where
  "jwt_decode token key algorithms now =
     (case token of
        NotAToken t \<Rightarrow> Inl JWTError
      | JWS alg k claims \<Rightarrow>
          if alg \<notin> set algorithms then Inl JWTError
          else if k \<noteq> key then Inl JWTError
          else (case claim_exp claims of
                  None \<Rightarrow> Inr claims
                | Some e \<Rightarrow> if e < \<lfloor>now\<rfloor> then Inl ExpiredSignatureError else Inr claims))"


section \<open>Security helpers (app/utils/security.py)\<close>

text \<open>
  What a handler answers when it does not return: an \<open>HTTPException\<close> with its status
  code and detail, or an exception nobody catches.
\<close>

datatype failure = HTTPException nat string | Unhandled py_error

definition verify_password :: "CryptContext \<Rightarrow> string \<Rightarrow> string \<Rightarrow> bool" where
  "verify_password pwd_context plain_password hashed = ctx_verify pwd_context plain_password hashed"


definition create_access_token :: "Settings \<Rightarrow> Claims \<Rightarrow> real option \<Rightarrow> real \<Rightarrow> Token" where
  "create_access_token cfg data_in expires_delta now =
     (let expire = (case expires_delta of
                      Some d \<Rightarrow> if d \<noteq> 0 then now + d
                                else now + 60 * real_of_int (ACCESS_TOKEN_EXPIRE_MINUTES cfg)
                    | None \<Rightarrow> now + 60 * real_of_int (ACCESS_TOKEN_EXPIRE_MINUTES cfg));
          to_encode = data_in\<lparr>claim_exp := Some \<lfloor>expire\<rfloor>\<rparr>
      in jwt_encode to_encode (SECRET_KEY cfg) (ALGORITHM cfg))"

definition create_refresh_token :: "Settings \<Rightarrow> Claims \<Rightarrow> real \<Rightarrow> Token" where
  "create_refresh_token cfg data_in now =
     (let expire = now + 86400 * real_of_int (REFRESH_TOKEN_EXPIRE_DAYS cfg);
          to_encode = data_in\<lparr>claim_exp := Some \<lfloor>expire\<rfloor>, claim_refresh := Some True\<rparr>
      in jwt_encode to_encode (SECRET_KEY cfg) (ALGORITHM cfg))"

definition login_attempts_key :: "string \<Rightarrow> string" where
  "login_attempts_key name = ''login_attempts:'' @ name"

definition check_login_attempts ::
  "Settings \<Rightarrow> string \<Rightarrow> MockRedis \<Rightarrow> real \<Rightarrow> (py_error + bool) \<times> MockRedis" where
  "check_login_attempts cfg name s now =
     (case get s (login_attempts_key name) now of
        (Inl e, s1) \<Rightarrow> (Inl e, s1)
      | (Inr None, s1) \<Rightarrow> (Inr True, s1)
      | (Inr (Some attempts), s1) \<Rightarrow>
          if attempts = [] then (Inr True, s1)
          else (case py_int attempts of
                  Inl e \<Rightarrow> (Inl e, s1)
                | Inr n \<Rightarrow> if n \<ge> MAX_LOGIN_ATTEMPTS cfg then (Inr False, s1) else (Inr True, s1)))"

definition increment_login_attempts ::
  "Settings \<Rightarrow> string \<Rightarrow> MockRedis \<Rightarrow> real \<Rightarrow> (py_error + unit) \<times> MockRedis" where
  "increment_login_attempts cfg name s now =
     (case incr s (login_attempts_key name) of
        (Inl e, s1) \<Rightarrow> (Inl e, s1)
      | (Inr n, s1) \<Rightarrow> (Inr (), snd (expire s1 (login_attempts_key name) (LOCKOUT_TIME cfg * 60) now)))"

definition reset_login_attempts :: "string \<Rightarrow> MockRedis \<Rightarrow> MockRedis" where
  "reset_login_attempts name s = snd (delete s (login_attempts_key name))"

text \<open>
  The detail of \<open>credentials_exception\<close> is Russian text in the source; it is written
  here in Latin letters.
\<close>

definition credentials_exception :: failure where
  "credentials_exception = HTTPException 401 ''Ne udalos proverit uchetnye dannye''"

definition get_current_user :: "Settings \<Rightarrow> Token \<Rightarrow> Db \<Rightarrow> real \<Rightarrow> failure + User" where
  "get_current_user cfg token db now =
     (case jwt_decode token (SECRET_KEY cfg) [ALGORITHM cfg] now of
        Inl e \<Rightarrow> Inl credentials_exception
      | Inr payload \<Rightarrow>
          (case claim_sub payload of
             None \<Rightarrow> Inl credentials_exception
           | Some name \<Rightarrow>
               (case user_by_username db name of
                  None \<Rightarrow> Inl credentials_exception
                | Some user \<Rightarrow> Inr user)))"


section \<open>Authentication endpoints (app/api/v1/endpoints/auth.py)\<close>

text \<open>
  A handler receives the request, the tables, the store and the reading of the clock,
  taken once for the request, and answers with its response or failure, the tables and
  the store as it leaves them.
\<close>

record LoginForm =
  form_username :: string
  form_password :: string

record TokenResponse =
  access_token :: Token
  refresh_token_field :: Token
  token_type :: string

definition too_many_attempts :: failure where
  "too_many_attempts = HTTPException 429 ''Too many login attempts. Please try again later.''"

definition incorrect_credentials :: failure where
  "incorrect_credentials = HTTPException 401 ''Incorrect username or password''"

definition inactive_user :: failure where
  "inactive_user = HTTPException 400 ''Inactive user''"

definition issue_tokens :: "Settings \<Rightarrow> User \<Rightarrow> real \<Rightarrow> TokenResponse" where
  "issue_tokens cfg user now =
     (let data_in = \<lparr>claim_sub = Some (username user), claim_exp = None, claim_refresh = None\<rparr>;
          access_token_expires = 60 * real_of_int (ACCESS_TOKEN_EXPIRE_MINUTES cfg)
      in \<lparr>access_token = create_access_token cfg data_in (Some access_token_expires) now,
          refresh_token_field = create_refresh_token cfg data_in now,
          token_type = ''bearer''\<rparr>)"

definition login ::
  "Settings \<Rightarrow> CryptContext \<Rightarrow> LoginForm \<Rightarrow> Db \<Rightarrow> MockRedis \<Rightarrow> real
     \<Rightarrow> (failure + TokenResponse) \<times> Db \<times> MockRedis" where
  "login cfg pwd_context form_data db s now =
     (case check_login_attempts cfg (form_username form_data) s now of
        (Inl e, s1) \<Rightarrow> (Inl (Unhandled e), db, s1)
      | (Inr False, s1) \<Rightarrow> (Inl too_many_attempts, db, s1)
      | (Inr True, s1) \<Rightarrow>
          (case user_by_username db (form_username form_data) of
             None \<Rightarrow>
               (case increment_login_attempts cfg (form_username form_data) s1 now of
                  (Inl e, s2) \<Rightarrow> (Inl (Unhandled e), db, s2)
                | (Inr u, s2) \<Rightarrow> (Inl incorrect_credentials, db, s2))
           | Some user \<Rightarrow>
               if \<not> verify_password pwd_context (form_password form_data) (hashed_password user)
               then (case increment_login_attempts cfg (form_username form_data) s1 now of
                       (Inl e, s2) \<Rightarrow> (Inl (Unhandled e), db, s2)
                     | (Inr u, s2) \<Rightarrow> (Inl incorrect_credentials, db, s2))
               else if \<not> is_active user then (Inl inactive_user, db, s1)
               else (let s2 = reset_login_attempts (form_username form_data) s1;
                         response = issue_tokens cfg user now;
                         db1 = update_user db (uid user) (\<lambda>u. u\<lparr>last_login := Some now\<rparr>)
                     in (Inr response, db1, s2))))"








definition could_not_validate :: failure where
  "could_not_validate = HTTPException 401 ''Could not validate credentials''"

definition invalid_refresh_token :: failure where
  "invalid_refresh_token = HTTPException 401 ''Invalid refresh token''"

definition refresh_user_not_found :: failure where
  "refresh_user_not_found = HTTPException 401 ''User not found''"

text \<open>
  \<open>refresh_token\<close>: the request body is a dictionary; the two \<open>HTTPException\<close>s raised
  inside the \<open>try\<close> are not \<open>JWTError\<close>s and pass through the \<open>except\<close> clause.
\<close>

definition refresh_token ::
  "Settings \<Rightarrow> (string \<times> Token) list \<Rightarrow> Db \<Rightarrow> real \<Rightarrow> failure + TokenResponse" where
  "refresh_token cfg request db now =
     (case map_of request ''refresh_token'' of
        None \<Rightarrow> Inl (Unhandled KeyError)
      | Some token \<Rightarrow>
          (case jwt_decode token (SECRET_KEY cfg) [ALGORITHM cfg] now of
             Inl e \<Rightarrow> Inl could_not_validate
           | Inr payload \<Rightarrow>
               (case claim_sub payload of
                  None \<Rightarrow> Inl could_not_validate
                | Some name \<Rightarrow>
                    if claim_refresh payload \<noteq> Some True then Inl invalid_refresh_token
                    else (case user_by_username db name of
                            None \<Rightarrow> Inl refresh_user_not_found
                          | Some user \<Rightarrow> Inr (issue_tokens cfg user now)))))"


section \<open>Matching of keys: \<open>fnmatch\<close> (standard library)\<close>

text \<open>
  \<open>fnmatch.fnmatch(name, pat)\<close> on a POSIX system, where \<open>os.path.normcase\<close> changes
  nothing. \<open>translate\<close> turns the pattern into a regular expression that must match the
  whole name: \<open>*\<close> stands for any text, \<open>?\<close> for any one character, \<open>[\<close> opens a
  character class when a closing bracket follows and is an ordinary character
  otherwise, and every other character stands for itself.

  The closing bracket of a class is the first one after an optional \<open>!\<close> and an optional
  \<open>]\<close> at the start; \<open>find_close\<close> gives its position in the text after the opening
  bracket.
\<close>

fun index_from :: "char \<Rightarrow> nat \<Rightarrow> string \<Rightarrow> nat option" where
  "index_from x k [] = None"
| "index_from x k (c # cs) =
     (if k = 0 \<and> c = x then Some 0 else map_option Suc (index_from x (k - 1) cs))"

definition find_close :: "string \<Rightarrow> nat option" where
  "find_close rest =
     (let j = (if take 1 rest = ''!'' then 1 else 0);
          j = (if take 1 (drop j rest) = '']'' then j + 1 else j)
      in index_from CHR '']'' j rest)"

text \<open>
  The text between the brackets is cut into chunks at the hyphens that make ranges: the
  search for a hyphen starts one character in (two after a leading \<open>!\<close>) and, after a
  hyphen was found, two characters after it. A hyphen found at the very end is put
  back on the last chunk. Then, from the right, a range whose lower end is above its
  upper end is removed with both its ends, the two chunks growing together.
\<close>

fun split_ranges :: "nat \<Rightarrow> string \<Rightarrow> string \<Rightarrow> string list" where
  "split_ranges k cur [] = [cur]"
| "split_ranges k cur (c # cs) =
     (if k = 0 \<and> c = CHR ''-'' then cur # split_ranges 2 [] cs
      else split_ranges (k - 1) (cur @ [c]) cs)"

definition close_last :: "string list \<Rightarrow> string list" where
  "close_last chunks =
     (if 1 < length chunks \<and> last chunks = []
      then butlast (butlast chunks) @ [last (butlast chunks) @ ''-'']
      else chunks)"

fun remove_empty :: "string list \<Rightarrow> string list" where
  "remove_empty [] = []"
| "remove_empty [a] = [a]"
| "remove_empty (a # b # rest) =
     (case remove_empty (b # rest) of
        [] \<Rightarrow> [a]
      | b' # rest' \<Rightarrow>
          if (of_char (last a) :: nat) > of_char (hd b') then (butlast a @ tl b') # rest'
          else a # b' # rest')"

text \<open>
  What the class \<open>[stuff]\<close> of the regular expression accepts: the characters of the
  chunks, and between two neighbouring chunks the range from the last character of the
  one to the first character of the other. After the escaping that \<open>translate\<close> does,
  no character but a leading \<open>!\<close> has a special meaning.
\<close>

fun in_chunks :: "char \<Rightarrow> string list \<Rightarrow> bool" where
  "in_chunks c [] = False"
| "in_chunks c [a] = (c \<in> set a)"
| "in_chunks c (a # b # rest) =
     (c \<in> set a \<or>
      ((of_char (last a) :: nat) \<le> of_char c \<and> (of_char c :: nat) \<le> of_char (hd b)) \<or>
      in_chunks c (b # rest))"

definition class_matches :: "string \<Rightarrow> char \<Rightarrow> bool" where
  "class_matches stuff c =
     (let chunks = remove_empty (close_last
                     (split_ranges (if take 1 stuff = ''!'' then 2 else 1) [] stuff))
      in if chunks = [[]] then False
         else if chunks = [''!''] then True
         else (case chunks of
                 [] \<Rightarrow> False
               | first # rest \<Rightarrow>
                   if take 1 first = ''!'' then \<not> in_chunks c (tl first # rest)
                   else in_chunks c chunks))"

function fnmatchcase :: "string \<Rightarrow> string \<Rightarrow> bool" where
  "fnmatchcase name [] = (name = [])"
| "fnmatchcase name (p # ps) =
     (if p = CHR ''*'' then
        fnmatchcase name ps \<or> (case name of [] \<Rightarrow> False | c # cs \<Rightarrow> fnmatchcase cs (p # ps))
      else if p = CHR ''?'' then
        (case name of [] \<Rightarrow> False | c # cs \<Rightarrow> fnmatchcase cs ps)
      else if p = CHR ''['' then
        (case find_close ps of
           None \<Rightarrow> (case name of [] \<Rightarrow> False | c # cs \<Rightarrow> c = CHR ''['' \<and> fnmatchcase cs ps)
         | Some j \<Rightarrow>
             (case name of
                [] \<Rightarrow> False
              | c # cs \<Rightarrow> class_matches (take j ps) c \<and> fnmatchcase cs (drop (Suc j) ps)))
      else (case name of [] \<Rightarrow> False | c # cs \<Rightarrow> c = p \<and> fnmatchcase cs ps))"
  by pat_completeness auto
termination
  by (relation "measures [\<lambda>(name, pat). length pat, \<lambda>(name, pat). length name]") auto

definition fnmatch :: "string \<Rightarrow> string \<Rightarrow> bool" where
  "fnmatch name pat = fnmatchcase name pat"


section \<open>Cache helpers (app/utils/cache.py)\<close>

text \<open>
  \<open>MockRedis.keys\<close> first drops the lapsed keys, then lists the keys of \<open>_data\<close> that
  match the pattern, in the order of the dictionary.
\<close>

definition keys :: "MockRedis \<Rightarrow> string \<Rightarrow> real \<Rightarrow> (py_error + string list) \<times> MockRedis" where
  "keys s pattern now =
     (case clean_expired s now of
        (Inl e, s1) \<Rightarrow> (Inl e, s1)
      | (Inr u, s1) \<Rightarrow> (Inr (filter (\<lambda>k. fnmatch k pattern) (map fst (data s1))), s1))"

text \<open>
  \<open>cache_data\<close> writes \<open>json.dumps(data, cls=DateTimeEncoder)\<close>; the encoder is the
  parameter \<open>encode\<close>, which answers \<open>None\<close> where it raises. Every exception is caught
  and logged. \<open>get_cached_data\<close> answers Python's \<open>None\<close> (\<open>PNone\<close>) when the key is not
  there, when the text is empty and when anything raises.
\<close>

definition cache_data ::
  "Settings \<Rightarrow> (pyval \<Rightarrow> string option) \<Rightarrow> string \<Rightarrow> pyval \<Rightarrow> int option \<Rightarrow> MockRedis \<Rightarrow> real
     \<Rightarrow> MockRedis" where
  "cache_data cfg encode key v ttl_arg s now =
     (let time = (case ttl_arg of None \<Rightarrow> CACHE_TTL cfg | Some t \<Rightarrow> t)
      in case encode v of
           None \<Rightarrow> s
         | Some text \<Rightarrow> snd (setex s key time text now))"

definition get_cached_data :: "Json \<Rightarrow> string \<Rightarrow> MockRedis \<Rightarrow> real \<Rightarrow> pyval \<times> MockRedis" where
  "get_cached_data json key s now =
     (case get s key now of
        (Inl e, s1) \<Rightarrow> (PNone, s1)
      | (Inr None, s1) \<Rightarrow> (PNone, s1)
      | (Inr (Some text), s1) \<Rightarrow>
          if text = [] then (PNone, s1)
          else (case loads json text of
                  None \<Rightarrow> (PNone, s1)
                | Some v \<Rightarrow> (v, s1)))"

text \<open>
  \<open>clear_cache\<close>: with a pattern that is not empty, the matching keys are listed and
  deleted one by one; without one the store is flushed. Nothing is caught here.
\<close>

definition clear_cache ::
  "string option \<Rightarrow> MockRedis \<Rightarrow> real \<Rightarrow> (py_error + unit) \<times> MockRedis" where
  "clear_cache key_pattern s now =
     (case key_pattern of
        None \<Rightarrow> (Inr (), snd (flushall s))
      | Some pattern \<Rightarrow>
          if pattern = [] then (Inr (), snd (flushall s))
          else (case keys s pattern now of
                  (Inl e, s1) \<Rightarrow> (Inl e, s1)
                | (Inr ks, s1) \<Rightarrow> (Inr (), fold (\<lambda>key st. snd (delete st key)) ks s1)))"


section \<open>Notification endpoints (app/api/v1/endpoints/notifications.py)\<close>

text \<open>
  The handlers receive the authenticated user. A response object has the columns of
  the row, so a row stands for its \<open>NotificationResponse\<close>; \<open>model_dump\<close> lists the
  fields in the order of the schema. The query orders by \<open>created_at\<close>, latest first;
  rows of equal time keep the order of the table here.
\<close>

definition notification_dump :: "Notification \<Rightarrow> pyval" where
  "notification_dump n =
     PDict [(''message'', PStr (message n)), (''id'', PInt (nid n)),
            (''is_read'', PBool (is_read n)), (''created_at'', PDateTime (n_created_at n)),
            (''user_id'', PInt (user_id n))]"

definition notifications_of :: "Db \<Rightarrow> int \<Rightarrow> Notification list" where
  "notifications_of db i =
     sort_key (\<lambda>n. - n_created_at n) (filter (\<lambda>n. user_id n = i) (notifications db))"

definition user_notifications_key :: "string \<Rightarrow> string" where
  "user_notifications_key id_text = ''user_notifications:'' @ id_text"

text \<open>
  \<open>get_notifications\<close> answers what the cache holds, as it was decoded, when that is
  true in a condition, and the rows of the table otherwise.
\<close>

datatype notifications_answer = Cached pyval | Fresh "Notification list"

definition get_notifications ::
  "Settings \<Rightarrow> Json \<Rightarrow> (pyval \<Rightarrow> string option) \<Rightarrow> User \<Rightarrow> Db \<Rightarrow> MockRedis \<Rightarrow> real
     \<Rightarrow> (failure + notifications_answer) \<times> Db \<times> MockRedis" where
  "get_notifications cfg json encode current_user db s now =
     (case py_str (uid current_user) of
        Inl e \<Rightarrow> (Inl (Unhandled e), db, s)
      | Inr id_text \<Rightarrow>
          (let cache_key = user_notifications_key id_text;
               (cached_notifications, s1) = get_cached_data json cache_key s now
           in if truthy cached_notifications then (Inr (Cached cached_notifications), db, s1)
              else (let result = notifications_of db (uid current_user);
                        s2 = cache_data cfg encode cache_key
                               (PList (map notification_dump result)) (Some (CACHE_TTL cfg)) s1 now
                    in (Inr (Fresh result), db, s2))))"

definition notification_not_found :: failure where
  "notification_not_found = HTTPException 404 ''Notification not found''"

definition notification_already_read :: failure where
  "notification_already_read = HTTPException 400 ''Notification already marked as read''"

definition mark_notification_read ::
  "int \<Rightarrow> User \<Rightarrow> Db \<Rightarrow> MockRedis \<Rightarrow> real \<Rightarrow> (failure + string) \<times> Db \<times> MockRedis" where
  "mark_notification_read notification_id current_user db s now =
     (case find (\<lambda>n. nid n = notification_id \<and> user_id n = uid current_user) (notifications db) of
        None \<Rightarrow> (Inl notification_not_found, db, s)
      | Some notification \<Rightarrow>
          if is_read notification then (Inl notification_already_read, db, s)
          else (let db1 = db\<lparr>notifications :=
                              map (\<lambda>n. if nid n = nid notification then n\<lparr>is_read := True\<rparr> else n)
                                  (notifications db)\<rparr>
                in case py_str (uid current_user) of
                     Inl e \<Rightarrow> (Inl (Unhandled e), db1, s)
                   | Inr id_text \<Rightarrow>
                       (case clear_cache (Some (user_notifications_key id_text)) s now of
                          (Inl e, s1) \<Rightarrow> (Inl (Unhandled e), db1, s1)
                        | (Inr u, s1) \<Rightarrow> (Inr ''Notification marked as read'', db1, s1))))"


section \<open>Sample data\<close>

text \<open>
  A password context whose hash is the salt, a dollar sign and the password, two users
  (the second deactivated) and their requests. The concrete instances of the theorems
  below are stated on these.
\<close>

definition sample_context :: CryptContext where
  "sample_context =
     \<lparr>ctx_hash = (\<lambda>salt password. salt @ ''$'' @ password),
      ctx_verify = (\<lambda>password hashed. tl (dropWhile (\<lambda>c. c \<noteq> CHR ''$'') hashed) = password)\<rparr>"

definition alice :: User where
  "alice = \<lparr>uid = 1, username = ''alice'', email = ''alice@example.com'',
            hashed_password = ''s1$Sw0rd!x'', role = USER, is_active = True,
            email_verified = True, created_at = 0, last_login = None\<rparr>"

definition bob :: User where
  "bob = \<lparr>uid = 2, username = ''bob'', email = ''bob@example.com'',
          hashed_password = ''s2$Pa55word!'', role = USER, is_active = False,
          email_verified = True, created_at = 0, last_login = None\<rparr>"

definition sample_db :: Db where
  "sample_db =
     \<lparr>users = [alice, bob],
      notifications =
        [\<lparr>nid = 10, user_id = 1, message = ''Task created'', is_read = False, n_created_at = 50\<rparr>,
         \<lparr>nid = 11, user_id = 2, message = ''Task created'', is_read = False, n_created_at = 60\<rparr>]\<rparr>"

definition alice_login :: LoginForm where
  "alice_login = \<lparr>form_username = ''alice'', form_password = ''Sw0rd!x''\<rparr>"

definition alice_wrong_login :: LoginForm where
  "alice_wrong_login = \<lparr>form_username = ''alice'', form_password = ''wrong''\<rparr>"

definition bob_login :: LoginForm where
  "bob_login = \<lparr>form_username = ''bob'', form_password = ''Pa55word!''\<rparr>"

text \<open>The store after \<open>n\<close> failed logins of alice whose last one was at time \<open>t\<close>.\<close>

definition alice_counter :: "string \<Rightarrow> real \<Rightarrow> MockRedis" where
  "alice_counter n t =
     \<lparr>data = [(''login_attempts:alice'', n)], expires = [(''login_attempts:alice'', t + 900)]\<rparr>"


text \<open>
  A codec for the values that the handlers store on the sample data: the text of
  \<open>{"user_id": 1}\<close> is written \<open>user_id=1\<close>, and the snapshot of alice's one
  notification is written with its id and its flag; decoding gives the time back as
  text, as \<open>json.loads\<close> does.
\<close>

definition alice_notification :: "bool \<Rightarrow> Notification" where
  "alice_notification flag =
     \<lparr>nid = 10, user_id = 1, message = ''Task created'', is_read = flag, n_created_at = 50\<rparr>"

definition alice_snapshot :: "bool \<Rightarrow> pyval" where
  "alice_snapshot flag =
     PList [PDict [(''message'', PStr ''Task created''), (''id'', PInt 10),
                   (''is_read'', PBool flag), (''created_at'', PStr ''1970-01-01T00:00:50''),
                   (''user_id'', PInt 1)]]"

definition sample_json :: Json where
  "sample_json =
     \<lparr>dumps = (\<lambda>v. case v of
                      PDict [(k, PInt i)] \<Rightarrow> k @ ''='' @ (case py_str i of Inr t \<Rightarrow> t | Inl e \<Rightarrow> [])
                    | _ \<Rightarrow> ''null''),
      loads = (\<lambda>t. if take 8 t = ''user_id=''
                    then (case py_int (drop 8 t) of
                            Inr i \<Rightarrow> Some (PDict [(''user_id'', PInt i)])
                          | Inl e \<Rightarrow> None)
                    else if t = ''[]'' then Some (PList [])
                    else if t = ''[{id: 10, is_read: false}]'' then Some (alice_snapshot False)
                    else if t = ''[{id: 10, is_read: true}]'' then Some (alice_snapshot True)
                    else None)\<rparr>"

definition sample_encoder :: "pyval \<Rightarrow> string option" where
  "sample_encoder v =
     (if v = PList [] then Some ''[]''
      else if v = PList [notification_dump (alice_notification False)]
           then Some ''[{id: 10, is_read: false}]''
      else if v = PList [notification_dump (alice_notification True)]
           then Some ''[{id: 10, is_read: true}]''
      else None)"

text \<open>The store after alice's notifications were read and cached at time \<open>t\<close>.\<close>

definition alice_cache :: "real \<Rightarrow> MockRedis" where
  "alice_cache t =
     \<lparr>data = [(''user_notifications:1'', ''[{id: 10, is_read: false}]'')],
      expires = [(''user_notifications:1'', t + 300)]\<rparr>"


section \<open>Properties of the ephemeral store\<close>

lemma incr_absent:
  "map_of (data s) key = None \<Longrightarrow>
     incr s key = (Inr 1, s\<lparr>data := AList.update key ''1'' (data s)\<rparr>)"
proof -
  assume a: "map_of (data s) key = None"
  have "py_str 1 = Inr ''1''" by code_simp
  with a show ?thesis by (simp add: incr_def)
qed

lemma incr_never_reads_expires:
  "incr (s\<lparr>expires := e\<rparr>) key =
     (fst (incr s key), (snd (incr s key))\<lparr>expires := e\<rparr>)"
  by (simp add: incr_def split: option.splits sum.splits)

text \<open>
  C7. \<open>increment(key)\<close> is specified as: create at 0 if the key is absent, then add one
  and return the new value, a key whose time to live has lapsed counting as absent.
  \<open>MockRedis.incr\<close> never looks at \<open>_expires\<close>: on a counter that lapsed at time 10 and
  still lies in \<open>_data\<close> with value 5, \<open>get\<close> at time 20 answers that the key is absent,
  but \<open>incr\<close> continues from the stale value and returns 6 instead of 1.
\<close>

theorem incr_continues_from_lapsed_value:
  "fst (get \<lparr>data = [(''k'', ''5'')], expires = [(''k'', 10)]\<rparr> ''k'' 20) = Inr None \<and>
   incr \<lparr>data = [(''k'', ''5'')], expires = [(''k'', 10)]\<rparr> ''k''
     = (Inr 6, \<lparr>data = [(''k'', ''6'')], expires = [(''k'', 10)]\<rparr>)"
  by code_simp

text \<open>
  C8, as stated: \<open>ttl\<close> returns the seconds remaining for a key that exists with a time
  to live. It fails where less than one second remains: a key that expires exactly at
  the time of the call is still served by \<open>get\<close>, has 0 seconds remaining, and \<open>ttl\<close>
  returns 1.
\<close>

theorem ttl_not_seconds_remaining:
  "fst (get \<lparr>data = [(''k'', ''v'')], expires = [(''k'', 100)]\<rparr> ''k'' 100) = Inr (Some ''v'') \<and>
   ttl_spec \<lparr>data = [(''k'', ''v'')], expires = [(''k'', 100)]\<rparr> ''k'' 100 = 0 \<and>
   ttl \<lparr>data = [(''k'', ''v'')], expires = [(''k'', 100)]\<rparr> ''k'' 100 = 1 \<and>
   ttl \<lparr>data = [(''k'', ''v'')], expires = [(''k'', 100)]\<rparr> ''k'' 100
     \<noteq> ttl_spec \<lparr>data = [(''k'', ''v'')], expires = [(''k'', 100)]\<rparr> ''k'' 100"
  by code_simp

text \<open>
  C8, amended: \<open>ttl\<close> returns \<open>-2\<close> for a key that \<open>_data\<close> does not hold, \<open>-1\<close> for a key
  held without a time to live, and for a key held with a time to live that has not
  lapsed the whole seconds remaining, but never less than 1.
\<close>

theorem ttl_whole_seconds_at_least_one:
  "(\<not> has_key key (data s) \<longrightarrow> ttl s key now = - 2) \<and>
   (has_key key (data s) \<and> map_of (expires s) key = None \<longrightarrow> ttl s key now = - 1) \<and>
   (has_key key (data s) \<and> map_of (expires s) key = Some t \<and> now \<le> t \<longrightarrow>
      ttl s key now = max 1 \<lfloor>t - now\<rfloor> \<and>
      (1 \<le> t - now \<longrightarrow> real_of_int (ttl s key now) \<le> t - now \<and> t - now < real_of_int (ttl s key now) + 1))"
proof (intro conjI impI)
  assume "\<not> has_key key (data s)"
  then show "ttl s key now = - 2" by (simp add: ttl_def)
next
  assume "has_key key (data s) \<and> map_of (expires s) key = None"
  then show "ttl s key now = - 1" by (simp add: ttl_def)
next
  assume a: "has_key key (data s) \<and> map_of (expires s) key = Some t \<and> now \<le> t"
  then show eq: "ttl s key now = max 1 \<lfloor>t - now\<rfloor>" by (simp add: ttl_def py_trunc_def)
  assume b: "1 \<le> t - now"
  then have "1 \<le> \<lfloor>t - now\<rfloor>" by linarith
  with eq have "ttl s key now = \<lfloor>t - now\<rfloor>" by simp
  then show "real_of_int (ttl s key now) \<le> t - now" "t - now < real_of_int (ttl s key now) + 1"
    by linarith+
qed

theorem ttl_whole_seconds_at_least_one_witness:
  "ttl \<lparr>data = [(''k'', ''v'')], expires = [(''k'', 100)]\<rparr> ''x'' 40 = - 2 \<and>
   ttl \<lparr>data = [(''k'', ''v'')], expires = []\<rparr> ''k'' 40 = - 1 \<and>
   ttl \<lparr>data = [(''k'', ''v'')], expires = [(''k'', 100)]\<rparr> ''k'' (81 / 2) = 59"
proof -
  let ?s = "\<lparr>data = [(''k'', ''v'')], expires = [(''k'', 100 :: real)]\<rparr>"
  let ?u = "\<lparr>data = [(''k'', ''v'')], expires = ([] :: (string \<times> real) list)\<rparr>"
  have h1: "\<not> has_key ''x'' (data ?s)" by code_simp
  have h2: "has_key ''k'' (data ?u) \<and> map_of (expires ?u) ''k'' = None" by code_simp
  have h3: "has_key ''k'' (data ?s) \<and> map_of (expires ?s) ''k'' = Some 100 \<and> (81 / 2 :: real) \<le> 100"
    by code_simp
  have f: "max 1 \<lfloor>100 - (81 / 2 :: real)\<rfloor> = 59" by simp
  from ttl_whole_seconds_at_least_one [of "''x''" "?s" 40] h1
  have c1: "ttl ?s ''x'' 40 = - 2" by blast
  from ttl_whole_seconds_at_least_one [of "''k''" "?u" 40] h2
  have c2: "ttl ?u ''k'' 40 = - 1" by blast
  from ttl_whole_seconds_at_least_one [of "''k''" "?s" "81 / 2" 100] h3
  have "ttl ?s ''k'' (81 / 2) = max 1 \<lfloor>100 - (81 / 2 :: real)\<rfloor>" by blast
  with f have c3: "ttl ?s ''k'' (81 / 2) = 59" by simp
  from c1 c2 c3 show ?thesis by blast
qed


section \<open>The store invariant\<close>

lemma has_key_iff: "has_key k d \<longleftrightarrow> k \<in> set (map fst d)"
  by (simp add: has_key_def map_of_eq_None_iff)

lemma py_int_empty: "py_int [] = Inl ValueError"
  by (simp add: py_int_def strip_def is_ascii_def int_max_str_digits_def)

lemma get_live:
  "(\<forall>t. map_of (expires s) key = Some t \<longrightarrow> now \<le> t) \<Longrightarrow>
     get s key now = (Inr (map_of (data s) key), s)"
  by (auto simp: get_def split: option.splits)

lemma get_lapsed:
  "map_of (expires s) key = Some t \<Longrightarrow> t < now \<Longrightarrow> has_key key (data s) \<Longrightarrow>
     get s key now = (Inr None, s\<lparr>data := AList.delete key (data s),
                                   expires := AList.delete key (expires s)\<rparr>)"
  by (simp add: get_def)

lemma get_absent:
  "map_of (data s) key = None \<Longrightarrow> map_of (expires s) key = None \<Longrightarrow>
     get s key now = (Inr None, s)"
  by (simp add: get_def)

lemma dom_delete: "fst ` set (AList.delete k al) = fst ` set al - {k}"
  by (induction al) auto

lemma store_inv_init: "store_inv init_store"
  by (simp add: store_inv_def init_store_def)

lemma store_inv_delete_both:
  "store_inv s \<Longrightarrow>
     store_inv (s\<lparr>data := AList.delete key (data s), expires := AList.delete key (expires s)\<rparr>)"
  by (auto simp: store_inv_def AList.distinct_delete dom_delete)

lemma store_inv_get: "store_inv s \<Longrightarrow> store_inv (snd (get s key now))"
  by (auto simp: get_def store_inv_delete_both split: option.splits)

lemma store_inv_expire: "store_inv s \<Longrightarrow> store_inv (snd (expire s key time now))"
  by (auto simp: expire_def store_inv_def has_key_iff AList.distinct_update AList.dom_update)

lemma store_inv_update_data:
  "store_inv s \<Longrightarrow> store_inv (s\<lparr>data := AList.update key v (data s)\<rparr>)"
  by (auto simp: store_inv_def AList.distinct_update AList.dom_update)

lemma store_inv_set_key: "store_inv s \<Longrightarrow> store_inv (snd (set_key s key v ex now))"
  by (auto simp: set_key_def Let_def store_inv_update_data store_inv_expire split: option.splits)

lemma store_inv_setex: "store_inv s \<Longrightarrow> store_inv (snd (setex s key time v now))"
  by (simp add: setex_def Let_def store_inv_update_data store_inv_expire)

lemma delete_eq:
  "delete s key =
     (if has_key key (data s)
      then (True, s\<lparr>data := AList.delete key (data s), expires := AList.delete key (expires s)\<rparr>)
      else (False, s))"
  by (simp add: delete_def has_key_iff)

lemma store_inv_delete: "store_inv s \<Longrightarrow> store_inv (snd (delete s key))"
  by (simp add: delete_eq store_inv_delete_both)

lemma store_inv_incr: "store_inv s \<Longrightarrow> store_inv (snd (incr s key))"
  by (auto simp: incr_def store_inv_update_data split: option.splits sum.splits)

lemma store_inv_flushall: "store_inv (snd (flushall s))"
  by (simp add: flushall_def store_inv_def)

section \<open>Login throttle\<close>

lemma check_absent:
  "map_of (data s) (login_attempts_key name) = None \<Longrightarrow>
   map_of (expires s) (login_attempts_key name) = None \<Longrightarrow>
     check_login_attempts cfg name s t = (Inr True, s)"
  by (simp add: check_login_attempts_def get_absent)

lemma delete_absent_after:
  "store_inv s \<Longrightarrow>
     map_of (data (snd (delete s key))) key = None \<and>
     map_of (expires (snd (delete s key))) key = None"
proof (cases "has_key key (data s)")
  case True
  then show ?thesis by (simp add: delete_eq AList.delete_conv')
next
  case False
  assume "store_inv s"
  with False have "map_of (data s) key = None" "map_of (expires s) key = None"
    by (auto simp: has_key_def store_inv_def map_of_eq_None_iff)
  with False show ?thesis by (simp add: delete_eq)
qed

lemma login_success_store:
  "login cfg ctx f db s now = (Inr resp, db', s') \<Longrightarrow>
     s' = reset_login_attempts (form_username f) (snd (get s (login_attempts_key (form_username f)) now))"
  by (auto simp: login_def check_login_attempts_def Let_def
           split: prod.splits sum.splits option.splits bool.splits if_splits)


lemma check_locked:
  assumes "map_of (data s) (login_attempts_key name) = Some v"
      and "py_int v = Inr n" and "MAX_LOGIN_ATTEMPTS cfg \<le> n"
      and "\<forall>t. map_of (expires s) (login_attempts_key name) = Some t \<longrightarrow> now \<le> t"
  shows "check_login_attempts cfg name s now = (Inr False, s)"
proof -
  from assms(2) have "v \<noteq> []" using py_int_empty by auto
  with assms show ?thesis
    by (simp add: check_login_attempts_def get_live)
qed

lemma check_lapsed:
  assumes "map_of (data s) (login_attempts_key name) = Some v"
      and "map_of (expires s) (login_attempts_key name) = Some t" and "t < now"
  shows "check_login_attempts cfg name s now =
           (Inr True, s\<lparr>data := AList.delete (login_attempts_key name) (data s),
                         expires := AList.delete (login_attempts_key name) (expires s)\<rparr>)"
  using assms by (simp add: check_login_attempts_def get_lapsed has_key_def)

text \<open>
  C2. A login for a principal whose counter holds a value of at least
  \<open>MAX_LOGIN_ATTEMPTS\<close> and has not lapsed answers 429 and leaves tables and store as
  they were, whatever the password context, the tables and the supplied password are:
  no credential is looked at. Once the counter's time to live has lapsed, a login with
  the correct password of an active user succeeds, and the counter is in neither
  dictionary afterwards.
\<close>

theorem login_lockout_and_expiry:
  "(map_of (data s) (login_attempts_key (form_username f)) = Some v \<and>
    py_int v = Inr n \<and> MAX_LOGIN_ATTEMPTS cfg \<le> n \<and>
    (\<forall>t. map_of (expires s) (login_attempts_key (form_username f)) = Some t \<longrightarrow> now \<le> t)
      \<longrightarrow> login cfg ctx f db s now = (Inl too_many_attempts, db, s))
   \<and>
   (map_of (data s) (login_attempts_key (form_username f)) = Some v \<and>
    map_of (expires s) (login_attempts_key (form_username f)) = Some t \<and> t < now \<and>
    user_by_username db (form_username f) = Some u \<and>
    verify_password ctx (form_password f) (hashed_password u) \<and> is_active u
      \<longrightarrow> (\<exists>db' s'. login cfg ctx f db s now = (Inr (issue_tokens cfg u now), db', s') \<and>
                    map_of (data s') (login_attempts_key (form_username f)) = None \<and>
                    map_of (expires s') (login_attempts_key (form_username f)) = None))"
proof (intro conjI impI)
  assume "map_of (data s) (login_attempts_key (form_username f)) = Some v \<and>
    py_int v = Inr n \<and> MAX_LOGIN_ATTEMPTS cfg \<le> n \<and>
    (\<forall>t. map_of (expires s) (login_attempts_key (form_username f)) = Some t \<longrightarrow> now \<le> t)"
  then have "check_login_attempts cfg (form_username f) s now = (Inr False, s)"
    by (intro check_locked) auto
  then show "login cfg ctx f db s now = (Inl too_many_attempts, db, s)"
    by (simp add: login_def)
next
  let ?key = "login_attempts_key (form_username f)"
  let ?s1 = "s\<lparr>data := AList.delete ?key (data s), expires := AList.delete ?key (expires s)\<rparr>"
  assume a: "map_of (data s) ?key = Some v \<and>
    map_of (expires s) ?key = Some t \<and> t < now \<and>
    user_by_username db (form_username f) = Some u \<and>
    verify_password ctx (form_password f) (hashed_password u) \<and> is_active u"
  then have c: "check_login_attempts cfg (form_username f) s now = (Inr True, ?s1)"
    by (intro check_lapsed) auto
  have d: "delete ?s1 ?key = (False, ?s1)"
    by (simp add: delete_def has_key_def AList.delete_conv')
  from a c d have "login cfg ctx f db s now =
      (Inr (issue_tokens cfg u now), update_user db (uid u) (\<lambda>u. u\<lparr>last_login := Some now\<rparr>), ?s1)"
    by (simp add: login_def reset_login_attempts_def)
  moreover have "map_of (data ?s1) ?key = None" "map_of (expires ?s1) ?key = None"
    by (simp_all add: AList.delete_conv')
  ultimately show "\<exists>db' s'. login cfg ctx f db s now = (Inr (issue_tokens cfg u now), db', s') \<and>
                    map_of (data s') ?key = None \<and> map_of (expires s') ?key = None"
    by blast
qed

text \<open>
  C6. After a successful login the principal's counter is gone, whatever it held, and
  \<open>check_login_attempts\<close> answers \<open>True\<close> at any later time.
\<close>

theorem login_success_clears_counter:
  assumes "store_inv s" and "login cfg ctx f db s now = (Inr resp, db', s')"
  shows "map_of (data s') (login_attempts_key (form_username f)) = None \<and>
         map_of (expires s') (login_attempts_key (form_username f)) = None \<and>
         (\<forall>t. check_login_attempts cfg (form_username f) s' t = (Inr True, s'))"
proof -
  let ?key = "login_attempts_key (form_username f)"
  from assms(2) have s': "s' = snd (delete (snd (get s ?key now)) ?key)"
    using login_success_store [of cfg ctx f db s now resp db' s']
    by (simp add: reset_login_attempts_def)
  from assms(1) have "store_inv (snd (get s ?key now))" by (rule store_inv_get)
  then have "map_of (data s') ?key = None \<and> map_of (expires s') ?key = None"
    unfolding s' by (rule delete_absent_after)
  then show ?thesis by (simp add: check_absent)
qed

lemma check_refused_store:
  "check_login_attempts cfg name s now = (Inr False, s1) \<Longrightarrow> s1 = s"
  by (auto simp: check_login_attempts_def get_def
           split: prod.splits sum.splits option.splits if_splits)

lemma check_live_store:
  "\<forall>e. map_of (expires s) (login_attempts_key name) = Some e \<longrightarrow> now \<le> e \<Longrightarrow>
     snd (check_login_attempts cfg name s now) = s"
  by (auto simp: check_login_attempts_def get_live split: sum.splits option.splits)

lemma get_after_eviction:
  assumes "get s key now = (Inr r, s1)" and "now \<le> t"
  shows "fst (get s1 key t) = fst (get s key t)"
proof (cases "\<exists>e. map_of (expires s) key = Some e \<and> e < now")
  case False
  then have "get s key now = (Inr (map_of (data s) key), s)"
    by (intro get_live) (auto simp: not_less)
  with assms(1) show ?thesis by simp
next
  case True
  then obtain e where e: "map_of (expires s) key = Some e" "e < now" by blast
  with assms(1) have h: "has_key key (data s)"
    by (auto simp: get_def split: if_splits)
  with e assms(1) have s1: "s1 = s\<lparr>data := AList.delete key (data s),
                                    expires := AList.delete key (expires s)\<rparr>"
    by (simp add: get_def)
  have "fst (get s1 key t) = Inr None"
    unfolding s1 by (simp add: get_def AList.delete_conv')
  moreover from e assms(2) h have "fst (get s key t) = Inr None"
    by (simp add: get_def)
  ultimately show ?thesis by simp
qed

text \<open>
  C10, as stated: a login for an existing, deactivated principal with the correct
  password fails with "Inactive user" and leaves the principal's counter unchanged,
  neither incremented nor deleted. It fails on two sides. While bob is locked out
  (counter 5, not lapsed) the login with his correct password answers 429 and not
  "Inactive user": the throttle comes before every other check. And when bob's counter
  has lapsed and still lies in the store, the \<open>get\<close> of the throttle evicts it: the login
  answers "Inactive user" and the counter is deleted from both dictionaries, which
  \<open>incr\<close> tells apart (3 on the store before, 1 on the store after).
\<close>

theorem login_inactive_locked_or_lapsed:
  "user_by_username sample_db (form_username bob_login) = Some bob \<and>
   verify_password sample_context (form_password bob_login) (hashed_password bob) \<and>
   \<not> is_active bob \<and>
   login settings sample_context bob_login sample_db
       \<lparr>data = [(''login_attempts:bob'', ''5'')], expires = [(''login_attempts:bob'', 900)]\<rparr> 100
     = (Inl too_many_attempts, sample_db,
        \<lparr>data = [(''login_attempts:bob'', ''5'')], expires = [(''login_attempts:bob'', 900)]\<rparr>) \<and>
   too_many_attempts \<noteq> inactive_user \<and>
   login settings sample_context bob_login sample_db
       \<lparr>data = [(''login_attempts:bob'', ''2'')], expires = [(''login_attempts:bob'', 900)]\<rparr> 1000
     = (Inl inactive_user, sample_db, \<lparr>data = [], expires = []\<rparr>) \<and>
   fst (incr \<lparr>data = [(''login_attempts:bob'', ''2'')], expires = [(''login_attempts:bob'', 900)]\<rparr>
          ''login_attempts:bob'') = Inr 3 \<and>
   fst (incr \<lparr>data = [], expires = []\<rparr> ''login_attempts:bob'') = Inr 1"
  by code_simp

text \<open>
  C10, amended: for an existing, deactivated principal and the correct password.
  When \<open>check_login_attempts\<close> lets the request through, \<open>login\<close> answers 400
  "Inactive user" with the tables untouched and the store as the throttle's \<open>get\<close> left
  it, and reading the counter gives the same answer as before at every time from now
  on. When \<open>check_login_attempts\<close> refuses, \<open>login\<close> answers 429 and the store is
  unchanged. The counter is never incremented: if its time to live has not lapsed (or
  it has none, or there is no counter) the store after the login is the store before
  it; if its time to live had lapsed, the login answers "Inactive user" and the counter
  is removed from both dictionaries.
\<close>

theorem login_inactive_keeps_counter:
  assumes "user_by_username db (form_username f) = Some u"
      and "verify_password ctx (form_password f) (hashed_password u)"
      and "\<not> is_active u"
  shows "(check_login_attempts cfg (form_username f) s now = (Inr True, s1) \<longrightarrow>
            login cfg ctx f db s now = (Inl inactive_user, db, s1) \<and>
            (\<forall>t\<ge>now. fst (get s1 (login_attempts_key (form_username f)) t)
                        = fst (get s (login_attempts_key (form_username f)) t))) \<and>
         (check_login_attempts cfg (form_username f) s now = (Inr False, s1) \<longrightarrow>
            login cfg ctx f db s now = (Inl too_many_attempts, db, s) \<and> s1 = s) \<and>
         ((\<forall>e. map_of (expires s) (login_attempts_key (form_username f)) = Some e \<longrightarrow> now \<le> e) \<longrightarrow>
            snd (snd (login cfg ctx f db s now)) = s) \<and>
         (map_of (data s) (login_attempts_key (form_username f)) = Some v \<and>
          map_of (expires s) (login_attempts_key (form_username f)) = Some e \<and> e < now \<longrightarrow>
            login cfg ctx f db s now =
              (Inl inactive_user, db,
               s\<lparr>data := AList.delete (login_attempts_key (form_username f)) (data s),
                 expires := AList.delete (login_attempts_key (form_username f)) (expires s)\<rparr>))"
proof (intro conjI impI)
  let ?key = "login_attempts_key (form_username f)"
  {
    assume c: "check_login_attempts cfg (form_username f) s now = (Inr True, s1)"
    with assms show "login cfg ctx f db s now = (Inl inactive_user, db, s1)"
      by (simp add: login_def)
    from c obtain r where g: "get s ?key now = (Inr r, s1)"
      by (auto simp: check_login_attempts_def split: prod.splits sum.splits option.splits if_splits)
    show "\<forall>t\<ge>now. fst (get s1 ?key t) = fst (get s ?key t)"
      using get_after_eviction [OF g] by blast
  }
  {
    assume c: "check_login_attempts cfg (form_username f) s now = (Inr False, s1)"
    then show s1: "s1 = s" by (rule check_refused_store)
    with c show "login cfg ctx f db s now = (Inl too_many_attempts, db, s)"
      by (simp add: login_def)
  }
  {
    assume "\<forall>e. map_of (expires s) ?key = Some e \<longrightarrow> now \<le> e"
    then have "snd (check_login_attempts cfg (form_username f) s now) = s"
      by (rule check_live_store)
    with assms show "snd (snd (login cfg ctx f db s now)) = s"
      by (auto simp: login_def split: prod.splits sum.splits bool.splits)
  }
  {
    assume a: "map_of (data s) ?key = Some v \<and> map_of (expires s) ?key = Some e \<and> e < now"
    then have "check_login_attempts cfg (form_username f) s now =
                 (Inr True, s\<lparr>data := AList.delete ?key (data s),
                              expires := AList.delete ?key (expires s)\<rparr>)"
      by (intro check_lapsed) auto
    with assms show "login cfg ctx f db s now =
              (Inl inactive_user, db,
               s\<lparr>data := AList.delete ?key (data s), expires := AList.delete ?key (expires s)\<rparr>)"
      by (simp add: login_def)
  }
qed


theorem login_lockout_and_expiry_witness:
  "login settings sample_context alice_login sample_db (alice_counter ''5'' 100) 1000
     = (Inl too_many_attempts, sample_db, alice_counter ''5'' 100) \<and>
   (\<exists>db' s'. login settings sample_context alice_login sample_db (alice_counter ''5'' 100) 1001
                = (Inr (issue_tokens settings alice 1001), db', s') \<and>
              map_of (data s') (login_attempts_key (form_username alice_login)) = None \<and>
              map_of (expires s') (login_attempts_key (form_username alice_login)) = None)"
proof -
  let ?s = "alice_counter ''5'' 100"
  let ?key = "login_attempts_key (form_username alice_login)"
  have d: "map_of (data ?s) ?key = Some ''5''" by code_simp
  have e: "map_of (expires ?s) ?key = Some 1000" by code_simp
  have p: "py_int ''5'' = Inr 5" by code_simp
  have m: "MAX_LOGIN_ATTEMPTS settings \<le> 5" by code_simp
  have u: "user_by_username sample_db (form_username alice_login) = Some alice" by code_simp
  have v: "verify_password sample_context (form_password alice_login) (hashed_password alice)"
    by code_simp
  have a: "is_active alice" by code_simp
  from e have live: "\<forall>t. map_of (expires ?s) ?key = Some t \<longrightarrow> (1000::real) \<le> t" by simp
  have lapsed: "(1000::real) < 1001" by simp
  from login_lockout_and_expiry
         [where s = "?s" and f = alice_login and v = "''5''" and n = 5 and cfg = settings
            and now = 1000 and ctx = sample_context and db = sample_db]
       d p m live
  have c1: "login settings sample_context alice_login sample_db ?s 1000
              = (Inl too_many_attempts, sample_db, ?s)"
    by blast
  from login_lockout_and_expiry
         [where s = "?s" and f = alice_login and v = "''5''" and cfg = settings
            and now = 1001 and ctx = sample_context and db = sample_db and t = 1000 and u = alice]
       d e lapsed u v a
  have c2: "\<exists>db' s'. login settings sample_context alice_login sample_db ?s 1001
                = (Inr (issue_tokens settings alice 1001), db', s') \<and>
              map_of (data s') ?key = None \<and> map_of (expires s') ?key = None"
    by blast
  from c1 c2 show ?thesis by blast
qed

theorem login_success_clears_counter_witness:
  "store_inv (alice_counter ''3'' 100) \<and>
   login settings sample_context alice_login sample_db (alice_counter ''3'' 100) 200
     = (Inr (issue_tokens settings alice 200),
        update_user sample_db 1 (\<lambda>u. u\<lparr>last_login := Some 200\<rparr>), init_store) \<and>
   map_of (data init_store) (login_attempts_key (form_username alice_login)) = None \<and>
   check_login_attempts settings (form_username alice_login) init_store 200 = (Inr True, init_store)"
proof -
  have i: "store_inv (alice_counter ''3'' 100)" by code_simp
  have r: "login settings sample_context alice_login sample_db (alice_counter ''3'' 100) 200
     = (Inr (issue_tokens settings alice 200),
        update_user sample_db 1 (\<lambda>u. u\<lparr>last_login := Some 200\<rparr>), init_store)"
    by code_simp
  from login_success_clears_counter [OF i r] i r show ?thesis by blast
qed

theorem login_inactive_keeps_counter_witness:
  "login settings sample_context bob_login sample_db
       \<lparr>data = [(''login_attempts:bob'', ''2'')], expires = [(''login_attempts:bob'', 900)]\<rparr> 100
     = (Inl inactive_user, sample_db,
        \<lparr>data = [(''login_attempts:bob'', ''2'')], expires = [(''login_attempts:bob'', 900)]\<rparr>) \<and>
   login settings sample_context bob_login sample_db
       \<lparr>data = [(''login_attempts:bob'', ''5'')], expires = [(''login_attempts:bob'', 900)]\<rparr> 100
     = (Inl too_many_attempts, sample_db,
        \<lparr>data = [(''login_attempts:bob'', ''5'')], expires = [(''login_attempts:bob'', 900)]\<rparr>) \<and>
   snd (snd (login settings sample_context bob_login sample_db
       \<lparr>data = [(''login_attempts:bob'', ''2'')], expires = [(''login_attempts:bob'', 900)]\<rparr> 100))
     = \<lparr>data = [(''login_attempts:bob'', ''2'')], expires = [(''login_attempts:bob'', 900)]\<rparr> \<and>
   login settings sample_context bob_login sample_db
       \<lparr>data = [(''login_attempts:bob'', ''2'')], expires = [(''login_attempts:bob'', 900)]\<rparr> 1000
     = (Inl inactive_user, sample_db,
        \<lparr>data = [(''login_attempts:bob'', ''2'')], expires = [(''login_attempts:bob'', 900)]\<rparr>
          \<lparr>data := [], expires := []\<rparr>)"
proof -
  let ?s = "\<lparr>data = [(''login_attempts:bob'', ''2'')], expires = [(''login_attempts:bob'', 900 :: real)]\<rparr>"
  let ?l = "\<lparr>data = [(''login_attempts:bob'', ''5'')], expires = [(''login_attempts:bob'', 900 :: real)]\<rparr>"
  let ?key = "login_attempts_key (form_username bob_login)"
  have u: "user_by_username sample_db (form_username bob_login) = Some bob" by code_simp
  have v: "verify_password sample_context (form_password bob_login) (hashed_password bob)"
    by code_simp
  have a: "\<not> is_active bob" by code_simp
  note th = login_inactive_keeps_counter [OF u v a, where cfg = settings]
  have c1: "check_login_attempts settings (form_username bob_login) ?s 100 = (Inr True, ?s)"
    by code_simp
  have c2: "check_login_attempts settings (form_username bob_login) ?l 100 = (Inr False, ?l)"
    by code_simp
  have e: "map_of (expires ?s) ?key = Some 900" by code_simp
  then have c3: "\<forall>e. map_of (expires ?s) ?key = Some e \<longrightarrow> (100::real) \<le> e" by simp
  have d: "map_of (data ?s) ?key = Some ''2''" by code_simp
  have lt: "(900::real) < 1000" by simp
  have del: "AList.delete ?key (data ?s) = [] \<and> AList.delete ?key (expires ?s) = []" by code_simp
  from th [where s = "?s" and now = 100 and ?s1.0 = "?s"] c1
  have r1: "login settings sample_context bob_login sample_db ?s 100 = (Inl inactive_user, sample_db, ?s)"
    by blast
  from th [where s = "?l" and now = 100 and ?s1.0 = "?l"] c2
  have r2: "login settings sample_context bob_login sample_db ?l 100 = (Inl too_many_attempts, sample_db, ?l)"
    by blast
  from th [where s = "?s" and now = 100] c3
  have r3: "snd (snd (login settings sample_context bob_login sample_db ?s 100)) = ?s"
    by blast
  from th [where s = "?s" and now = 1000 and v = "''2''" and e = 900] d e lt
  have "login settings sample_context bob_login sample_db ?s 1000 =
          (Inl inactive_user, sample_db,
           ?s\<lparr>data := AList.delete ?key (data ?s), expires := AList.delete ?key (expires ?s)\<rparr>)"
    by blast
  with del have r4: "login settings sample_context bob_login sample_db ?s 1000 =
          (Inl inactive_user, sample_db, ?s\<lparr>data := [], expires := []\<rparr>)"
    by simp
  from r1 r2 r3 r4 show ?thesis by blast
qed


section \<open>Tokens\<close>

lemma decode_own_token:
  "jwt_decode (jwt_encode claims (SECRET_KEY cfg) (ALGORITHM cfg)) (SECRET_KEY cfg) [ALGORITHM cfg] now =
     (case claim_exp claims of
        None \<Rightarrow> Inr claims
      | Some e \<Rightarrow> if e < \<lfloor>now\<rfloor> then Inl ExpiredSignatureError else Inr claims)"
  by (simp add: jwt_decode_def jwt_encode_def)

text \<open>
  C4. An access token issued by \<open>create_access_token\<close> for a subject and verified with
  the service secret no later than its lifetime after issue decodes to a claim set
  with that subject; \<open>get_current_user\<close> answers the user of that name when the table
  has one, and any user it answers bears the subject as user name.
\<close>

theorem access_token_round_trip:
  assumes "claim_sub data_in = Some subject"
      and "t1 \<le> t0 + (case expires_delta of
                           Some d \<Rightarrow> if d \<noteq> 0 then d else 60 * real_of_int (ACCESS_TOKEN_EXPIRE_MINUTES cfg)
                         | None \<Rightarrow> 60 * real_of_int (ACCESS_TOKEN_EXPIRE_MINUTES cfg))"
  shows "(\<exists>payload. jwt_decode (create_access_token cfg data_in expires_delta t0)
                        (SECRET_KEY cfg) [ALGORITHM cfg] t1 = Inr payload \<and>
                     claim_sub payload = Some subject) \<and>
         get_current_user cfg (create_access_token cfg data_in expires_delta t0) db t1
           = (case user_by_username db subject of
                None \<Rightarrow> Inl credentials_exception
              | Some user \<Rightarrow> Inr user) \<and>
         (\<forall>user. get_current_user cfg (create_access_token cfg data_in expires_delta t0) db t1 = Inr user
                  \<longrightarrow> username user = subject)"
proof -
  define lifetime where "lifetime = (case expires_delta of
                           Some d \<Rightarrow> if d \<noteq> 0 then d else 60 * real_of_int (ACCESS_TOKEN_EXPIRE_MINUTES cfg)
                         | None \<Rightarrow> 60 * real_of_int (ACCESS_TOKEN_EXPIRE_MINUTES cfg))"
  define payload where "payload = data_in\<lparr>claim_exp := Some \<lfloor>t0 + lifetime\<rfloor>\<rparr>"
  have tok: "create_access_token cfg data_in expires_delta t0
               = jwt_encode payload (SECRET_KEY cfg) (ALGORITHM cfg)"
    by (simp add: create_access_token_def payload_def lifetime_def Let_def split: option.splits)
  from assms(2) have "\<lfloor>t1\<rfloor> \<le> \<lfloor>t0 + lifetime\<rfloor>"
    unfolding lifetime_def by (rule floor_mono)
  then have dec: "jwt_decode (create_access_token cfg data_in expires_delta t0)
                    (SECRET_KEY cfg) [ALGORITHM cfg] t1 = Inr payload"
    by (simp add: tok decode_own_token payload_def)
  have sub: "claim_sub payload = Some subject"
    using assms(1) by (simp add: payload_def)
  have cur: "get_current_user cfg (create_access_token cfg data_in expires_delta t0) db t1
           = (case user_by_username db subject of
                None \<Rightarrow> Inl credentials_exception
              | Some user \<Rightarrow> Inr user)"
    by (simp add: get_current_user_def dec sub)
  have name: "\<And>user. user_by_username db subject = Some user \<Longrightarrow> username user = subject"
    by (auto simp: user_by_username_def find_Some_iff)
  from dec sub cur name show ?thesis
    by (auto split: option.splits)
qed

text \<open>
  C5, as stated: a token whose \<open>exp\<close> lies in the past at verification time is refused.
  jose compares \<open>exp\<close> with the clock in whole seconds. The access token issued to alice
  at time 1000 has \<open>exp\<close> 2800; at clock time 2800.9, when \<open>exp\<close> lies 0.9 seconds in the
  past, \<open>get_current_user\<close> accepts it and answers alice.
\<close>

theorem token_accepted_after_expires_at:
  "claim_exp (case access_token (issue_tokens settings alice 1000) of JWS a k c \<Rightarrow> c) = Some 2800 \<and>
   real_of_int 2800 < 28009 / 10 \<and>
   get_current_user settings (access_token (issue_tokens settings alice 1000)) sample_db (28009 / 10)
     = Inr alice"
  by code_simp

text \<open>
  C5, amended: a token whose \<open>exp\<close> is before the second the verifier's clock shows (the
  comparison jose makes, in whole seconds) is refused by \<open>get_current_user\<close> and by
  \<open>refresh_token\<close> with their 401, whatever key and algorithm it was signed with; when
  the signature is the service's own, the decoder's error is \<open>ExpiredSignatureError\<close>.
\<close>

theorem expired_token_rejected:
  assumes "claim_exp claims = Some e" and "e < \<lfloor>now\<rfloor>"
  shows "get_current_user cfg (JWS alg key claims) db now = Inl credentials_exception \<and>
         refresh_token cfg [(''refresh_token'', JWS alg key claims)] db now = Inl could_not_validate \<and>
         (\<exists>err. jwt_decode (JWS alg key claims) (SECRET_KEY cfg) [ALGORITHM cfg] now = Inl err) \<and>
         (alg = ALGORITHM cfg \<and> key = SECRET_KEY cfg \<longrightarrow>
            jwt_decode (JWS alg key claims) (SECRET_KEY cfg) [ALGORITHM cfg] now
              = Inl ExpiredSignatureError)"
  using assms
  by (simp add: get_current_user_def refresh_token_def jwt_decode_def)

text \<open>
  \<open>get_current_user\<close> never reads the \<open>refresh\<close> claim: an unexpired refresh token of an
  existing user authenticates that user. \<open>refresh_token\<close> does read it and refuses a
  token without it.
\<close>

lemma refresh_token_accepted_as_access_token:
  assumes "claim_sub data_in = Some subject"
      and "user_by_username db subject = Some user"
      and "t1 \<le> t0 + 86400 * real_of_int (REFRESH_TOKEN_EXPIRE_DAYS cfg)"
  shows "get_current_user cfg (create_refresh_token cfg data_in t0) db t1 = Inr user"
proof -
  from assms(3) have "\<lfloor>t1\<rfloor> \<le> \<lfloor>t0 + 86400 * real_of_int (REFRESH_TOKEN_EXPIRE_DAYS cfg)\<rfloor>"
    by (rule floor_mono)
  with assms(1,2) show ?thesis
    by (simp add: get_current_user_def create_refresh_token_def decode_own_token Let_def)
qed

lemma access_token_refused_by_refresh:
  assumes "claim_refresh data_in = None"
  shows "\<exists>err. refresh_token cfg [(''refresh_token'', create_access_token cfg data_in expires_delta t0)] db t1
           = Inl err"
  using assms
  by (simp add: refresh_token_def create_access_token_def decode_own_token Let_def
           split: option.splits)

text \<open>
  C1. Token kinds are to be mutually exclusive at verification. The refresh token that
  a login at time 1000 issued to alice carries \<open>refresh = True\<close>, and
  \<open>get_current_user\<close> accepts it at time 1500 and answers alice. The other direction
  holds: \<open>refresh_token\<close> refuses the access token of the same login.
\<close>

theorem refresh_token_passes_get_current_user:
  "get_current_user settings (refresh_token_field (issue_tokens settings alice 1000)) sample_db 1500
     = Inr alice \<and>
   claim_refresh
     (case refresh_token_field (issue_tokens settings alice 1000) of JWS a k c \<Rightarrow> c) = Some True \<and>
   refresh_token settings [(''refresh_token'', access_token (issue_tokens settings alice 1000))]
       sample_db 1500
     = Inl invalid_refresh_token"
  by code_simp

theorem access_token_round_trip_witness:
  "get_current_user settings (access_token (issue_tokens settings alice 1000)) sample_db 2800 = Inr alice"
proof -
  let ?d = "\<lparr>claim_sub = Some ''alice'', claim_exp = None, claim_refresh = None\<rparr>"
  have a: "claim_sub ?d = Some ''alice''" by simp
  have b: "(2800::real) \<le> 1000 + (case Some (1800::real) of
                           Some d \<Rightarrow> if d \<noteq> 0 then d else 60 * real_of_int (ACCESS_TOKEN_EXPIRE_MINUTES settings)
                         | None \<Rightarrow> 60 * real_of_int (ACCESS_TOKEN_EXPIRE_MINUTES settings))"
    by simp
  have t: "access_token (issue_tokens settings alice 1000)
             = create_access_token settings ?d (Some 1800) 1000"
    by code_simp
  have u: "user_by_username sample_db ''alice'' = Some alice" by code_simp
  from access_token_round_trip [OF a b, where db = sample_db] t u show ?thesis
    by simp
qed

theorem expired_token_rejected_witness:
  "get_current_user settings (access_token (issue_tokens settings alice 1000)) sample_db 2801
     = Inl credentials_exception"
proof -
  let ?c = "\<lparr>claim_sub = Some ''alice'', claim_exp = Some 2800, claim_refresh = None\<rparr>"
  have t: "access_token (issue_tokens settings alice 1000) = JWS ''HS256'' ''your-secret-key'' ?c"
    by code_simp
  have a: "claim_exp ?c = Some 2800" by simp
  have b: "(2800::int) < \<lfloor>2801::real\<rfloor>" by simp
  from expired_token_rejected [OF a b, where cfg = settings and alg = "''HS256''"
         and key = "''your-secret-key''" and db = sample_db] t
  show ?thesis by simp
qed


section \<open>Password reset\<close>







section \<open>Cache of notifications\<close>

lemma of_char_digit_char: "d < 10 \<Longrightarrow> (of_char (digit_char d) :: nat) = 48 + d"
  by (simp add: digit_char_def)

lemma str_nat_digits: "c \<in> set (str_nat n) \<Longrightarrow> is_digit c"
proof (induction n arbitrary: c rule: str_nat.induct)
  case (1 n)
  show ?case
  proof (cases "n < 10")
    case True
    with "1.prems" have "c = digit_char n" by (simp add: str_nat.simps [of n])
    with True show ?thesis by (simp add: is_digit_def of_char_digit_char)
  next
    case False
    with "1.prems" have "c \<in> set (str_nat (n div 10)) \<or> c = digit_char (n mod 10)"
      by (auto simp: str_nat.simps [of n])
    then show ?thesis
    proof
      assume "c \<in> set (str_nat (n div 10))"
      with False show ?thesis by (intro "1.IH") auto
    next
      assume "c = digit_char (n mod 10)"
      then show ?thesis by (simp add: is_digit_def of_char_digit_char)
    qed
  qed
qed

lemma py_str_plain: "py_str i = Inr t \<Longrightarrow> c \<in> set t \<Longrightarrow> c \<noteq> CHR ''*'' \<and> c \<noteq> CHR ''?'' \<and> c \<noteq> CHR ''[''"
proof -
  assume a: "py_str i = Inr t" and c: "c \<in> set t"
  then have "c = CHR ''-'' \<or> c \<in> set (str_nat (nat \<bar>i\<bar>))"
    by (auto simp: py_str_def Let_def split: if_splits)
  then show ?thesis
  proof
    assume "c = CHR ''-''" then show ?thesis by simp
  next
    assume "c \<in> set (str_nat (nat \<bar>i\<bar>))"
    then have "is_digit c" by (rule str_nat_digits)
    then show ?thesis by (auto simp: is_digit_def)
  qed
qed

lemma fnmatchcase_literal:
  "\<forall>c\<in>set p. c \<noteq> CHR ''*'' \<and> c \<noteq> CHR ''?'' \<and> c \<noteq> CHR ''['' \<Longrightarrow> fnmatchcase n p = (n = p)"
  by (induction p arbitrary: n) (auto split: list.splits)

lemma key_matches_itself:
  "py_str i = Inr t \<Longrightarrow> fnmatch k (user_notifications_key t) = (k = user_notifications_key t)"
  unfolding fnmatch_def
  by (rule fnmatchcase_literal) (auto simp: user_notifications_key_def dest: py_str_plain)

lemma del_each_ok:
  "store_inv s \<Longrightarrow> distinct ks \<Longrightarrow> set ks \<subseteq> fst ` set (expires s) \<Longrightarrow>
     \<exists>s1. del_each ks s = (Inr (), s1) \<and> store_inv s1"
proof (induction ks arbitrary: s)
  case Nil
  then show ?case by simp
next
  case (Cons k ks)
  let ?s' = "s\<lparr>data := AList.delete k (data s), expires := AList.delete k (expires s)\<rparr>"
  from Cons.prems have ke: "has_key k (expires s)" by (auto simp: has_key_iff)
  with Cons.prems(1) have kd: "has_key k (data s)" by (auto simp: has_key_iff store_inv_def)
  from ke kd have step: "del_each (k # ks) s = del_each ks ?s'" by simp
  from Cons.prems(1) have inv: "store_inv ?s'" by (rule store_inv_delete_both)
  from Cons.prems(2,3) have sub: "set ks \<subseteq> fst ` set (expires ?s')"
    by (auto simp: dom_delete)
  from Cons.prems(2) have "distinct ks" by simp
  from Cons.IH [OF inv this sub] step show ?case by simp
qed

lemma clean_expired_ok:
  assumes "store_inv s"
  shows "\<exists>s1. clean_expired s now = (Inr (), s1) \<and> store_inv s1"
proof -
  from assms have "distinct (map fst (expires s))" by (simp add: store_inv_def)
  then have d: "distinct (map fst (filter (\<lambda>(k, t). t < now) (expires s)))"
    by (rule distinct_map_filter)
  have "set (map fst (filter (\<lambda>(k, t). t < now) (expires s))) \<subseteq> fst ` set (expires s)"
    by auto
  from del_each_ok [OF assms d this] show ?thesis by (simp add: clean_expired_def)
qed

lemma delete_data_lookup:
  "map_of (data (snd (delete s a))) k = (if k = a then None else map_of (data s) k)"
  by (auto simp: delete_eq AList.delete_conv' has_key_def)

lemma fold_delete_lookup:
  "map_of (data (fold (\<lambda>key st. snd (delete st key)) ks s)) k
     = (if k \<in> set ks then None else map_of (data s) k)"
  by (induction ks arbitrary: s) (auto simp: delete_data_lookup)

lemma store_inv_fold_delete:
  "store_inv s \<Longrightarrow> store_inv (fold (\<lambda>key st. snd (delete st key)) ks s)"
  by (induction ks arbitrary: s) (auto simp: store_inv_delete)

lemma store_inv_no_expiry:
  "store_inv s \<Longrightarrow> map_of (data s) k = None \<Longrightarrow> map_of (expires s) k = None"
  by (auto simp: store_inv_def map_of_eq_None_iff)

lemma clear_cache_literal:
  assumes "store_inv s" and "p \<noteq> []" and "\<And>k. fnmatch k p = (k = p)"
  shows "\<exists>s1. clear_cache (Some p) s now = (Inr (), s1) \<and> store_inv s1 \<and>
              map_of (data s1) p = None \<and> map_of (expires s1) p = None"
proof -
  from clean_expired_ok [OF assms(1)] obtain s0 where
      c: "clean_expired s now = (Inr (), s0)" and i0: "store_inv s0" by blast
  let ?ks = "filter (\<lambda>k. fnmatch k p) (map fst (data s0))"
  let ?s1 = "fold (\<lambda>key st. snd (delete st key)) ?ks s0"
  from c assms(2) have r: "clear_cache (Some p) s now = (Inr (), ?s1)"
    by (simp add: clear_cache_def keys_def)
  from i0 have i1: "store_inv ?s1" by (rule store_inv_fold_delete)
  have "map_of (data ?s1) p = None"
    by (auto simp: fold_delete_lookup assms(3) map_of_eq_None_iff)
  with i1 r show ?thesis by (auto simp: store_inv_no_expiry)
qed

lemma get_notifications_miss:
  assumes "py_str (uid user) = Inr id_text"
      and "map_of (data s) (user_notifications_key id_text) = None"
      and "map_of (expires s) (user_notifications_key id_text) = None"
  shows "get_notifications cfg json encode user db s now =
           (Inr (Fresh (notifications_of db (uid user))), db,
            cache_data cfg encode (user_notifications_key id_text)
              (PList (map notification_dump (notifications_of db (uid user))))
              (Some (CACHE_TTL cfg)) s now)"
  using assms by (simp add: get_notifications_def get_cached_data_def get_absent Let_def)

lemma mark_notification_read_success:
  assumes "mark_notification_read notification_id user db s now = (Inr msg, db', s')"
  shows "\<exists>n id_text.
           find (\<lambda>n. nid n = notification_id \<and> user_id n = uid user) (notifications db) = Some n \<and>
           \<not> is_read n \<and>
           db' = db\<lparr>notifications :=
                      map (\<lambda>m. if nid m = nid n then m\<lparr>is_read := True\<rparr> else m) (notifications db)\<rparr> \<and>
           py_str (uid user) = Inr id_text \<and>
           clear_cache (Some (user_notifications_key id_text)) s now = (Inr (), s')"
  using assms
  by (auto simp: mark_notification_read_def Let_def
           split: option.splits if_splits sum.splits prod.splits)

lemma marked_in_result:
  assumes "find (\<lambda>n. nid n = notification_id \<and> user_id n = i) (notifications db) = Some n"
  shows "\<exists>m\<in>set (notifications_of
                    (db\<lparr>notifications :=
                          map (\<lambda>m. if nid m = nid n then m\<lparr>is_read := True\<rparr> else m) (notifications db)\<rparr>) i).
           nid m = notification_id \<and> is_read m"
proof -
  from assms have n: "n \<in> set (notifications db)" "nid n = notification_id" "user_id n = i"
    by (auto simp: find_Some_iff)
  then have "n\<lparr>is_read := True\<rparr> \<in> set (map (\<lambda>m. if nid m = nid n then m\<lparr>is_read := True\<rparr> else m) (notifications db))"
    by force
  with n show ?thesis
    by (auto simp: notifications_of_def intro!: bexI [of _ "n\<lparr>is_read := True\<rparr>"])
qed

lemma get_notifications_hit:
  assumes "py_str (uid user) = Inr id_text"
      and "map_of (data s) (user_notifications_key id_text) = Some cached_text" and "cached_text \<noteq> []"
      and "\<forall>e. map_of (expires s) (user_notifications_key id_text) = Some e \<longrightarrow> now \<le> e"
      and "loads json cached_text = Some v" and "truthy v"
  shows "get_notifications cfg json encode user db s now = (Inr (Cached v), db, s)"
  using assms by (simp add: get_notifications_def get_cached_data_def get_live Let_def)

text \<open>
  C9. A read of a user's notifications that finds no entry under the user's cache key
  answers the rows of the table and stores their snapshot under that key with the
  cache lifetime. A read that finds a live entry answers the decoded snapshot,
  whatever the tables hold by then. Marking an unread notification of the user as
  read, on a store that satisfies the class invariant, succeeds, sets the flag in the
  table and leaves the user's key in neither dictionary; so the next read, at any
  time, answers the rows of the table, and the notification is among them with its
  flag set.
\<close>

theorem notification_cache_invalidation:
  "(py_str (uid user) = Inr id_text \<and>
    map_of (data s) (user_notifications_key id_text) = None \<and>
    map_of (expires s) (user_notifications_key id_text) = None \<and>
    encode (PList (map notification_dump (notifications_of db (uid user)))) = Some cached_text \<longrightarrow>
      get_notifications cfg json encode user db s now =
        (Inr (Fresh (notifications_of db (uid user))), db,
         snd (setex s (user_notifications_key id_text) (CACHE_TTL cfg) cached_text now)))
   \<and>
   (py_str (uid user) = Inr id_text \<and>
    map_of (data s) (user_notifications_key id_text) = Some cached_text \<and> cached_text \<noteq> [] \<and>
    (\<forall>e. map_of (expires s) (user_notifications_key id_text) = Some e \<longrightarrow> now \<le> e) \<and>
    loads json cached_text = Some v \<and> truthy v \<longrightarrow>
      get_notifications cfg json encode user db s now = (Inr (Cached v), db, s))
   \<and>
   (store_inv s \<and> py_str (uid user) = Inr id_text \<and>
    find (\<lambda>n. nid n = notification_id \<and> user_id n = uid user) (notifications db) = Some n \<and>
    \<not> is_read n \<and>
    db' = db\<lparr>notifications :=
               map (\<lambda>m. if nid m = nid n then m\<lparr>is_read := True\<rparr> else m) (notifications db)\<rparr> \<longrightarrow>
      (\<exists>s'. mark_notification_read notification_id user db s now
                  = (Inr ''Notification marked as read'', db', s') \<and>
            map_of (data s') (user_notifications_key id_text) = None \<and>
            map_of (expires s') (user_notifications_key id_text) = None \<and>
            (\<forall>cfg2 json2 encode2 t. \<exists>s''.
               get_notifications cfg2 json2 encode2 user db' s' t
                 = (Inr (Fresh (notifications_of db' (uid user))), db', s''))) \<and>
      (\<exists>m\<in>set (notifications_of db' (uid user)). nid m = notification_id \<and> is_read m))"
proof (intro conjI impI)
  let ?key = "user_notifications_key id_text"
  {
    assume "py_str (uid user) = Inr id_text \<and> map_of (data s) ?key = None \<and>
            map_of (expires s) ?key = None \<and>
            encode (PList (map notification_dump (notifications_of db (uid user)))) = Some cached_text"
    then show "get_notifications cfg json encode user db s now =
        (Inr (Fresh (notifications_of db (uid user))), db,
         snd (setex s ?key (CACHE_TTL cfg) cached_text now))"
      by (simp add: get_notifications_miss cache_data_def)
  }
  {
    assume "py_str (uid user) = Inr id_text \<and>
      map_of (data s) ?key = Some cached_text \<and> cached_text \<noteq> [] \<and>
      (\<forall>e. map_of (expires s) ?key = Some e \<longrightarrow> now \<le> e) \<and>
      loads json cached_text = Some v \<and> truthy v"
    then show "get_notifications cfg json encode user db s now = (Inr (Cached v), db, s)"
      by (intro get_notifications_hit) auto
  }
  {
    assume a: "store_inv s \<and> py_str (uid user) = Inr id_text \<and>
      find (\<lambda>n. nid n = notification_id \<and> user_id n = uid user) (notifications db) = Some n \<and>
      \<not> is_read n \<and>
      db' = db\<lparr>notifications :=
               map (\<lambda>m. if nid m = nid n then m\<lparr>is_read := True\<rparr> else m) (notifications db)\<rparr>"
    then have p: "py_str (uid user) = Inr id_text" by simp
    have "?key \<noteq> []" by (simp add: user_notifications_key_def)
    from clear_cache_literal [OF _ this key_matches_itself [OF p], of s now] a
    obtain s1 where c: "clear_cache (Some ?key) s now = (Inr (), s1)"
        and d: "map_of (data s1) ?key = None" and e: "map_of (expires s1) ?key = None"
      by blast
    from a c have m: "mark_notification_read notification_id user db s now
                  = (Inr ''Notification marked as read'', db', s1)"
      by (simp add: mark_notification_read_def Let_def)
    have "\<forall>cfg2 json2 encode2 t. \<exists>s''.
               get_notifications cfg2 json2 encode2 user db' s1 t
                 = (Inr (Fresh (notifications_of db' (uid user))), db', s'')"
      by (simp add: get_notifications_miss [OF p d e])
    with m d e show "\<exists>s'. mark_notification_read notification_id user db s now
                  = (Inr ''Notification marked as read'', db', s') \<and>
            map_of (data s') ?key = None \<and> map_of (expires s') ?key = None \<and>
            (\<forall>cfg2 json2 encode2 t. \<exists>s''.
               get_notifications cfg2 json2 encode2 user db' s' t
                 = (Inr (Fresh (notifications_of db' (uid user))), db', s''))"
      by blast
    from a marked_in_result [of notification_id "uid user" db n]
    show "\<exists>m\<in>set (notifications_of db' (uid user)). nid m = notification_id \<and> is_read m"
      by simp
  }
qed

theorem notification_cache_invalidation_witness:
  "get_notifications settings sample_json sample_encoder alice sample_db init_store 1000
     = (Inr (Fresh [alice_notification False]), sample_db, alice_cache 1000) \<and>
   get_notifications settings sample_json sample_encoder alice sample_db (alice_cache 1000) 1010
     = (Inr (Cached (alice_snapshot False)), sample_db, alice_cache 1000) \<and>
   mark_notification_read 10 alice sample_db (alice_cache 1000) 1020
     = (Inr ''Notification marked as read'',
        sample_db\<lparr>notifications :=
          map (\<lambda>m. if nid m = 10 then m\<lparr>is_read := True\<rparr> else m) (notifications sample_db)\<rparr>,
        init_store) \<and>
   fst (get_notifications settings sample_json sample_encoder alice
          (sample_db\<lparr>notifications :=
             map (\<lambda>m. if nid m = 10 then m\<lparr>is_read := True\<rparr> else m) (notifications sample_db)\<rparr>)
          init_store 1030)
     = Inr (Fresh [alice_notification True])"
proof -
  let ?key = "user_notifications_key ''1''"
  let ?text = "''[{id: 10, is_read: false}]''"
  let ?db' = "sample_db\<lparr>notifications :=
          map (\<lambda>m. if nid m = 10 then m\<lparr>is_read := True\<rparr> else m) (notifications sample_db)\<rparr>"
  note th = notification_cache_invalidation [where user = alice and id_text = "''1''"
              and db = sample_db and cfg = settings and json = sample_json
              and encode = sample_encoder and cached_text = "?text"]
  have p: "py_str (uid alice) = Inr ''1''" by code_simp
  have q: "notifications_of sample_db (uid alice) = [alice_notification False]" by code_simp
  have h1: "map_of (data init_store) ?key = None \<and> map_of (expires init_store) ?key = None"
    by code_simp
  have h2: "sample_encoder (PList (map notification_dump (notifications_of sample_db (uid alice))))
              = Some ?text"
    by code_simp
  have w: "snd (setex init_store ?key (CACHE_TTL settings) ?text 1000) = alice_cache 1000"
    by code_simp
  from th [where s = init_store and now = 1000] p h1 h2
  have "get_notifications settings sample_json sample_encoder alice sample_db init_store 1000
     = (Inr (Fresh (notifications_of sample_db (uid alice))), sample_db,
        snd (setex init_store ?key (CACHE_TTL settings) ?text 1000))"
    by blast
  with q w have c1: "get_notifications settings sample_json sample_encoder alice sample_db init_store 1000
     = (Inr (Fresh [alice_notification False]), sample_db, alice_cache 1000)"
    by simp
  have h3: "map_of (data (alice_cache 1000)) ?key = Some ?text \<and> ?text \<noteq> []" by code_simp
  have e: "map_of (expires (alice_cache 1000)) ?key = Some 1300" by code_simp
  then have h4: "\<forall>e. map_of (expires (alice_cache 1000)) ?key = Some e \<longrightarrow> (1010::real) \<le> e"
    by simp
  have h5: "loads sample_json ?text = Some (alice_snapshot False) \<and> truthy (alice_snapshot False)"
    by code_simp
  from th [where s = "alice_cache 1000" and now = 1010 and v = "alice_snapshot False"] p h3 h4 h5
  have c2: "get_notifications settings sample_json sample_encoder alice sample_db (alice_cache 1000) 1010
     = (Inr (Cached (alice_snapshot False)), sample_db, alice_cache 1000)"
    by blast
  have h6: "store_inv (alice_cache 1000)" by code_simp
  have h7: "find (\<lambda>n. nid n = 10 \<and> user_id n = uid alice) (notifications sample_db)
              = Some (alice_notification False) \<and> \<not> is_read (alice_notification False) \<and>
            nid (alice_notification False) = 10"
    by code_simp
  have r: "mark_notification_read 10 alice sample_db (alice_cache 1000) 1020
     = (Inr ''Notification marked as read'', ?db', init_store)"
    by code_simp
  from h7 have h8: "?db' = sample_db\<lparr>notifications :=
               map (\<lambda>m. if nid m = nid (alice_notification False) then m\<lparr>is_read := True\<rparr> else m)
                   (notifications sample_db)\<rparr>"
    by simp
  from th [where s = "alice_cache 1000" and now = 1020 and notification_id = 10
             and n = "alice_notification False" and db' = "?db'"] h6 p h7 h8
  obtain s' where m: "mark_notification_read 10 alice sample_db (alice_cache 1000) 1020
                  = (Inr ''Notification marked as read'', ?db', s')"
      and g: "\<forall>cfg2 json2 encode2 t. \<exists>s''.
               get_notifications cfg2 json2 encode2 alice ?db' s' t
                 = (Inr (Fresh (notifications_of ?db' (uid alice))), ?db', s'')"
    by blast
  from m r have "s' = init_store" by simp
  with g have "\<exists>s''. get_notifications settings sample_json sample_encoder alice ?db' init_store 1030
                 = (Inr (Fresh (notifications_of ?db' (uid alice))), ?db', s'')"
    by blast
  moreover have "notifications_of ?db' (uid alice) = [alice_notification True]" by code_simp
  ultimately have c4: "fst (get_notifications settings sample_json sample_encoder alice ?db' init_store 1030)
     = Inr (Fresh [alice_notification True])"
    by auto
  from c1 c2 r c4 show ?thesis by blast
qed

end
